theory Spec2Isabelle
  imports Complex_Main "HOL-Library.Log_Nat"
begin

section \<open>The refund evaluator of \<open>src/pages/index.tsx\<close>\<close>

text \<open>
  The page reads a list of customer records, normalises the locale-dependent date
  strings of each record (\<open>parseCustomerInfo\<close>), computes the hours between investment
  and refund (\<open>calculateRequestTiming\<close>), selects the refund window
  (\<open>calculateRefundPeriod\<close>) and compares the two (\<open>evaluate\<close>). \<open>Home\<close> maps
  \<open>evaluate\<close> over the whole list and renders one table row for each result.
\<close>

subsection \<open>Numbers and dates of the host language\<close>

text \<open>
  An ECMAScript Number is an IEEE 754 double. It is modelled as \<open>NaN\<close> or a finite
  value, and a finite double as the rational number it denotes. The result of an
  arithmetic operation is the exact result rounded to the nearest double, ties to the
  even significand (\<open>round_double\<close>). Infinities do not arise: the only arithmetic
  of the source is one subtraction of two time values, integers of magnitude at most
  8.64e15, and one division by the literal \<open>60 * 60 * 1000\<close>, far from overflow.
\<close>

datatype number = NaN | Num rat

text \<open>
  A \<open>Date\<close> object holds a time value: an integral number of milliseconds since the
  epoch, or \<open>NaN\<close> for an Invalid Date (here \<open>None\<close>).
\<close>

type_synonym date = "int option"

fun getTime :: "date \<Rightarrow> number" where
  "getTime None = NaN"
| "getTime (Some t) = Num (of_int t)"

text \<open>Rounding to the nearest integer, a tie going to the even one.\<close>

definition round_half_even :: "rat \<Rightarrow> int" where
  "round_half_even x =
     (let f = \<lfloor>x\<rfloor>; d = x - of_int f
      in if d < 1 / 2 then f else if 1 / 2 < d then f + 1 else if even f then f else f + 1)"

text \<open>The exponent \<open>e\<close> of a non-zero \<open>q\<close>: \<open>2 powi e \<le> \<bar>q\<bar> < 2 powi (e + 1)\<close>.\<close>

definition binade :: "rat \<Rightarrow> int" where
  "binade q =
     (let m = \<bar>q\<bar>
      in if 1 \<le> m then bitlen \<lfloor>m\<rfloor> - 1 else - bitlen (\<lceil>1 / m\<rceil> - 1))"

text \<open>
  A double has a significand of 53 bits, so the doubles of exponent \<open>e\<close> are the
  multiples of \<open>2 powi (e - 52)\<close>; below the normal range they are the multiples of
  \<open>2 powi (- 1074)\<close>.
\<close>

definition round_double :: "rat \<Rightarrow> rat" where
  "round_double q =
     (if q = 0 then 0
      else (let u = 2 powi (max (binade q - 52) (- 1074))
            in of_int (round_half_even (q / u)) * u))"

text \<open>The operators \<open>-\<close>, \<open>/\<close> by a non-zero literal, \<open><\<close> and \<open><=\<close> on Numbers.\<close>

fun js_sub :: "number \<Rightarrow> number \<Rightarrow> number" where
  "js_sub (Num a) (Num b) = Num (round_double (a - b))"
| "js_sub _ _ = NaN"

fun js_div_literal :: "number \<Rightarrow> rat \<Rightarrow> number" where
  "js_div_literal (Num a) k = Num (round_double (a / k))"
| "js_div_literal NaN k = NaN"

fun js_lt :: "number \<Rightarrow> number \<Rightarrow> bool" where
  "js_lt (Num a) (Num b) = (a < b)"
| "js_lt _ _ = False"

fun js_le :: "number \<Rightarrow> number \<Rightarrow> bool" where
  "js_le (Num a) (Num b) = (a \<le> b)"
| "js_le _ _ = False"

subsection \<open>Strings: \<open>split\<close>, indexing and template literals\<close>

text \<open>
  \<open>s.split("/")\<close> cuts \<open>s\<close> at every separator and keeps the empty pieces; the result
  always has at least one element.
\<close>

fun js_split :: "char \<Rightarrow> string \<Rightarrow> string list" where
  "js_split sep [] = [[]]"
| "js_split sep (c # cs) =
     (if c = sep then [] # js_split sep cs
      else (case js_split sep cs of
              [] \<Rightarrow> [[c]]
            | w # ws \<Rightarrow> (c # w) # ws))"

text \<open>
  Reading an array past its end gives \<open>undefined\<close>, which a template literal prints
  as the nine characters \<open>undefined\<close>.
\<close>

definition template_at :: "string list \<Rightarrow> nat \<Rightarrow> string" where
  "template_at xs i = (if i < length xs then xs ! i else ''undefined'')"

text \<open>The template \<open>`${x}/${y}/${z}`\<close>.\<close>

definition slashed :: "string \<Rightarrow> string \<Rightarrow> string \<Rightarrow> string" where
  "slashed x y z = x @ ''/'' @ y @ ''/'' @ z"

subsection \<open>Records\<close>

text \<open>
  \<open>CustomerData\<close> and \<open>StandardCustomerData\<close> have the same field names; they differ in
  the type of the three date fields (a string, then a \<open>Date\<close>). The fields
  \<open>Location\<close> and \<open>Source\<close> are strings: the records come from a JSON file through an
  unchecked cast, so the union types of the declaration are not enforced at run time.
  The object spread \<open>...customer\<close> keeps \<open>InvestmentTime\<close> and \<open>RefundTime\<close> in the
  normalised record.
\<close>

record 'd Customer =
  Name :: string
  Location :: string
  SignupDate :: 'd
  Source :: string
  InvestmentDate :: 'd
  InvestmentTime :: string
  RefundDate :: 'd
  RefundTime :: string

type_synonym CustomerData = "string Customer"

record StandardCustomerData = "date Customer" +
  isRequestValid :: bool

record EvaluatedCustomer = StandardCustomerData +
  requestTiming :: number
  refundPeriod :: number

text \<open>
  \<open>throw new Error(msg)\<close> is the value \<open>Inl (Error msg)\<close>; a \<open>RangeError\<close> thrown by
  a library function is \<open>Inl (RangeError msg)\<close>.
\<close>

datatype error = Error string | RangeError string

subsection \<open>\<open>parseCustomerInfo\<close>\<close>

text \<open>
  The \<open>Date\<close> constructor applied to a string is a built-in of the host; its parsing
  of strings such as \<open>01/02/2020 10:00\<close> is left to the implementation by the language
  standard. It is the parameter \<open>newDate\<close> of every function below.
\<close>

definition parseCustomerInfo :: "(string \<Rightarrow> date) \<Rightarrow> CustomerData \<Rightarrow> StandardCustomerData" where
  "parseCustomerInfo newDate customer =
     (let signupDate = js_split CHR ''/'' (SignupDate customer);
          investmentDate = js_split CHR ''/'' (InvestmentDate customer);
          refundDate = js_split CHR ''/'' (RefundDate customer);
          isUS = (Location customer = ''US'');
          signupDateFormat =
            (if isUS
             then slashed (template_at signupDate 0) (template_at signupDate 1) (template_at signupDate 2)
             else slashed (template_at signupDate 1) (template_at signupDate 0) (template_at signupDate 2));
          investmentDateFormat =
            (if isUS
             then slashed (template_at investmentDate 0) (template_at investmentDate 1) (template_at investmentDate 2)
             else slashed (template_at investmentDate 1) (template_at investmentDate 0) (template_at investmentDate 2));
          refundDateFormat =
            (if isUS
             then slashed (template_at refundDate 0) (template_at refundDate 1) (template_at refundDate 2)
             else slashed (template_at refundDate 1) (template_at refundDate 0) (template_at refundDate 2))
      in \<lparr> Name = Name customer,
           Location = Location customer,
           SignupDate = newDate signupDateFormat,
           Source = Source customer,
           InvestmentDate = newDate (investmentDateFormat @ '' '' @ InvestmentTime customer),
           InvestmentTime = InvestmentTime customer,
           RefundDate = newDate (refundDateFormat @ '' '' @ RefundTime customer),
           RefundTime = RefundTime customer,
           isRequestValid = False \<rparr>)"

subsection \<open>\<open>calculateRequestTiming\<close>\<close>

definition calculateRequestTiming :: "StandardCustomerData \<Rightarrow> number" where
  "calculateRequestTiming customer =
     (let investmentTimestamp = getTime (InvestmentDate customer);
          refundTimestamp = getTime (RefundDate customer);
          timeDiffInHours =
            js_div_literal (js_sub refundTimestamp investmentTimestamp) (60 * 60 * 1000)
      in timeDiffInHours)"

subsection \<open>\<open>calculateRefundPeriod\<close>\<close>

text \<open>
  Modelled from the spec: \<open>isBefore\<close> is imported from the package \<open>date-fns\<close>, which
  is not under \<open>src/\<close>. The spec reads it as a strict less-than comparison of the two
  timestamps; on an invalid date the comparison of \<open>NaN\<close> is false.
\<close>

definition isBefore :: "date \<Rightarrow> date \<Rightarrow> bool" where
  "isBefore d dateToCompare = js_lt (getTime d) (getTime dateToCompare)"

definition calculateRefundPeriod :: "(string \<Rightarrow> date) \<Rightarrow> StandardCustomerData \<Rightarrow> error + number" where
  "calculateRefundPeriod newDate customer =
     (let isOldTOS = isBefore (SignupDate customer) (newDate ''01-02-2020'')
      in if Source customer = ''phone'' then Inr (if isOldTOS then Num 4 else Num 8)
         else if Source customer = ''web app'' then Inr (if isOldTOS then Num 8 else Num 16)
         else Inl (Error ''Invalid Source''))"

subsection \<open>\<open>evaluate\<close> and \<open>Home\<close>\<close>

text \<open>
  \<open>evaluate\<close> calls the three functions in the order of the source; the exception of
  \<open>calculateRefundPeriod\<close> leaves \<open>evaluate\<close> before the comparison.
\<close>

definition evaluate :: "(string \<Rightarrow> date) \<Rightarrow> CustomerData \<Rightarrow> error + EvaluatedCustomer" where
  "evaluate newDate data =
     (let customer = parseCustomerInfo newDate data;
          requestTiming' = calculateRequestTiming customer
      in case calculateRefundPeriod newDate customer of
           Inl e \<Rightarrow> Inl e
         | Inr refundPeriod' \<Rightarrow>
             (let isRequestValid' = js_le requestTiming' refundPeriod'
              in Inr \<lparr> Name = Name customer,
                       Location = Location customer,
                       SignupDate = SignupDate customer,
                       Source = Source customer,
                       InvestmentDate = InvestmentDate customer,
                       InvestmentTime = InvestmentTime customer,
                       RefundDate = RefundDate customer,
                       RefundTime = RefundTime customer,
                       isRequestValid = isRequestValid',
                       requestTiming = requestTiming',
                       refundPeriod = refundPeriod' \<rparr>))"

text \<open>
  \<open>Array.prototype.map\<close> calls the function on the elements from left to right; an
  exception thrown by a call ends the whole \<open>map\<close>, and no array is returned.
\<close>

fun array_map :: "('a \<Rightarrow> error + 'b) \<Rightarrow> 'a list \<Rightarrow> error + 'b list" where
  "array_map f [] = Inr []"
| "array_map f (x # xs) =
     (case f x of
        Inl e \<Rightarrow> Inl e
      | Inr y \<Rightarrow> (case array_map f xs of
                   Inl e \<Rightarrow> Inl e
                 | Inr ys \<Rightarrow> Inr (y # ys)))"

text \<open>
  Modelled from the spec: \<open>format\<close> and \<open>differenceInHours\<close> are imported from the
  package \<open>date-fns\<close>, which is not under \<open>src/\<close>; the spec only says that the display
  writes a timestamp as day/month/year plus hour:minute. The text of a cell is kept
  symbolic: \<open>DateText t\<close> is what \<open>format\<close> writes for the valid time value \<open>t\<close>, and
  \<open>HoursText a b\<close> what \<open>differenceInHours a b\<close> gives. On an Invalid Date \<open>format\<close>
  throws the \<open>RangeError\<close> \<open>Invalid time value\<close>; \<open>differenceInHours\<close> does not throw.
\<close>

datatype cell = Text string | DateText int | HoursText date date | NumberText number

definition format :: "date \<Rightarrow> error + cell" where
  "format d =
     (case d of
        None \<Rightarrow> Inl (RangeError ''Invalid time value'')
      | Some t \<Rightarrow> Inr (DateText t))"

text \<open>
  One \<open><tr>\<close> of the table: its colour (green for a valid request, red otherwise)
  and its ten cells, evaluated from left to right.
\<close>

record TableRow =
  rowValid :: bool
  cells :: "cell list"

definition renderRow :: "(string \<Rightarrow> date) \<Rightarrow> EvaluatedCustomer \<Rightarrow> error + TableRow" where
  "renderRow newDate customer =
     (case format (SignupDate customer) of
        Inl e \<Rightarrow> Inl e
      | Inr signupCell \<Rightarrow>
     (case format (InvestmentDate customer) of
        Inl e \<Rightarrow> Inl e
      | Inr investmentCell \<Rightarrow>
     (case format (RefundDate customer) of
        Inl e \<Rightarrow> Inl e
      | Inr refundCell \<Rightarrow>
          Inr \<lparr> rowValid = isRequestValid customer,
                cells =
                  [Text (Name customer),
                   Text (Location customer),
                   signupCell,
                   Text (Source customer),
                   investmentCell,
                   refundCell,
                   HoursText (RefundDate customer) (InvestmentDate customer),
                   NumberText (refundPeriod customer),
                   Text (if isBefore (SignupDate customer) (newDate ''01-02-2020'')
                         then ''Old'' else ''New''),
                   Text (if isRequestValid customer then ''Valid'' else ''Invalid'')] \<rparr>)))"

text \<open>
  \<open>Home\<close> computes \<open>customerData\<close> and then builds the table from it; the model
  returns the rows, or the exception that leaves \<open>Home\<close>. Nothing in \<open>Home\<close> catches.
\<close>

definition Home :: "(string \<Rightarrow> date) \<Rightarrow> CustomerData list \<Rightarrow> error + TableRow list" where
  "Home newDate data =
     (case array_map (evaluate newDate) data of
        Inl e \<Rightarrow> Inl e
      | Inr customerData \<Rightarrow> array_map (renderRow newDate) customerData)"

subsection \<open>A reference instance of the \<open>Date\<close> constructor\<close>

text \<open>
  Modelled from the spec: the host's \<open>Date\<close> constructor is not under \<open>src/\<close>.
  \<open>referenceDate\<close> reads the strings that the page builds the way the spec describes
  them: a month, a day and a year separated by \<open>/\<close> or by \<open>-\<close>, optionally followed by
  a space and \<open>hours:minutes\<close>, as the wall-clock instant with no timezone conversion
  (midnight when no time is given); anything else is an Invalid Date. The theorems
  below hold for every \<open>newDate\<close>; this instance runs the model on concrete records.
\<close>

definition digit_value :: "char \<Rightarrow> nat option" where
  "digit_value c =
     (let n = (of_char c :: nat) in if 48 \<le> n \<and> n \<le> 57 then Some (n - 48) else None)"

fun digits_value :: "nat \<Rightarrow> string \<Rightarrow> nat option" where
  "digits_value acc [] = Some acc"
| "digits_value acc (c # cs) =
     (case digit_value c of
        None \<Rightarrow> None
      | Some v \<Rightarrow> digits_value (10 * acc + v) cs)"

definition decimal :: "string \<Rightarrow> nat option" where
  "decimal s = (if s = [] then None else digits_value 0 s)"

text \<open>Days from 1970-01-01 to the given day of the proleptic Gregorian calendar.\<close>

definition days_from_civil :: "int \<Rightarrow> int \<Rightarrow> int \<Rightarrow> int" where
  "days_from_civil y m d =
     (let y' = (if m \<le> 2 then y - 1 else y);
          era = y' div 400;
          yoe = y' - era * 400;
          doy = (153 * (if 2 < m then m - 3 else m + 9) + 2) div 5 + d - 1;
          doe = yoe * 365 + yoe div 4 - yoe div 100 + doy
      in era * 146097 + doe - 719468)"

definition reference_day :: "string \<Rightarrow> int option" where
  "reference_day s =
     (case map decimal (js_split (if CHR ''/'' \<in> set s then CHR ''/'' else CHR ''-'') s) of
        [Some m, Some d, Some y] \<Rightarrow>
          (if 1 \<le> m \<and> m \<le> 12 \<and> 1 \<le> d \<and> d \<le> 31
           then Some (days_from_civil (int y) (int m) (int d))
           else None)
      | _ \<Rightarrow> None)"

definition reference_minutes :: "string \<Rightarrow> int option" where
  "reference_minutes s =
     (case map decimal (js_split CHR '':'' s) of
        [Some h, Some mi] \<Rightarrow> (if h \<le> 23 \<and> mi \<le> 59 then Some (int h * 60 + int mi) else None)
      | _ \<Rightarrow> None)"

definition referenceDate :: "string \<Rightarrow> date" where
  "referenceDate s =
     (case js_split CHR '' '' s of
        [d] \<Rightarrow> (case reference_day d of
                  None \<Rightarrow> None
                | Some n \<Rightarrow> Some (n * 86400000))
      | [d, t] \<Rightarrow> (case (reference_day d, reference_minutes t) of
                     (Some n, Some k) \<Rightarrow> Some (n * 86400000 + k * 60000)
                   | _ \<Rightarrow> None)
      | _ \<Rightarrow> None)"

subsection \<open>Sample records\<close>

text \<open>Scenarios 1 and 3 of the specification, with the source literal of the code.\<close>

definition scenario1 :: CustomerData where
  "scenario1 =
     \<lparr> Name = ''Scenario 1'', Location = ''US'', SignupDate = ''01/01/2019'',
       Source = ''phone'', InvestmentDate = ''01/10/2024'', InvestmentTime = ''10:00'',
       RefundDate = ''01/10/2024'', RefundTime = ''13:00'' \<rparr>"

definition scenario3 :: CustomerData where
  "scenario3 =
     \<lparr> Name = ''Scenario 3'', Location = ''Europe'', SignupDate = ''15/03/2021'',
       Source = ''web app'', InvestmentDate = ''01/06/2024'', InvestmentTime = ''09:00'',
       RefundDate = ''02/06/2024'', RefundTime = ''00:00'' \<rparr>"

section \<open>Auxiliary facts\<close>

subsection \<open>Rounding to a double\<close>

lemma round_half_even_of_int: "round_half_even (of_int n) = n"
  by (simp add: round_half_even_def)

lemma round_half_even_between:
  "\<lfloor>x\<rfloor> \<le> round_half_even x \<and> round_half_even x \<le> \<lfloor>x\<rfloor> + 1"
  by (simp add: round_half_even_def Let_def)

lemma round_half_even_error: "\<bar>of_int (round_half_even x) - x\<bar> \<le> 1 / 2"
proof -
  define d where "d = x - of_int \<lfloor>x\<rfloor>"
  have d: "0 \<le> d" "d < 1" unfolding d_def by linarith+
  have x: "x = of_int \<lfloor>x\<rfloor> + d" by (simp add: d_def)
  consider "d < 1 / 2" | "1 / 2 < d" | "d = 1 / 2" by linarith
  then show ?thesis
  proof cases
    case 1
    then have "round_half_even x = \<lfloor>x\<rfloor>"
      by (simp add: round_half_even_def Let_def d_def)
    then show ?thesis using 1 d x by simp
  next
    case 2
    then have "round_half_even x = \<lfloor>x\<rfloor> + 1"
      by (simp add: round_half_even_def Let_def d_def)
    then show ?thesis using 2 d x by simp
  next
    case 3
    then have "round_half_even x = \<lfloor>x\<rfloor> \<or> round_half_even x = \<lfloor>x\<rfloor> + 1"
      by (simp add: round_half_even_def Let_def d_def)
    then show ?thesis using 3 x by auto
  qed
qed

lemma round_half_even_ge:
  assumes "of_int n \<le> x"
  shows "n \<le> round_half_even x"
proof -
  from assms have "n \<le> \<lfloor>x\<rfloor>" by (simp add: le_floor_iff)
  then show ?thesis using round_half_even_between [of x] by linarith
qed

lemma round_half_even_le:
  assumes "x \<le> of_int n"
  shows "round_half_even x \<le> n"
proof (cases "x = of_int n")
  case True
  then show ?thesis by (simp add: round_half_even_of_int)
next
  case False
  with assms have "x < of_int n" by simp
  then have "\<lfloor>x\<rfloor> < n" by (simp add: floor_less_iff)
  then show ?thesis using round_half_even_between [of x] by linarith
qed

lemma powi_nat: "0 \<le> e \<Longrightarrow> (2::rat) powi e = 2 ^ nat e"
  by (simp add: power_int_def)

lemma powi_pos: "0 < (2::rat) powi e"
  by (simp add: power_int_def)

lemma binade_bounds:
  assumes "q \<noteq> 0"
  shows "2 powi (binade q) \<le> \<bar>q\<bar> \<and> \<bar>q\<bar> < 2 powi (binade q + 1)"
proof (cases "1 \<le> \<bar>q\<bar>")
  case True
  define n where "n = \<lfloor>\<bar>q\<bar>\<rfloor>"
  have n1: "1 \<le> n" using True by (simp add: n_def le_floor_iff)
  then have npos: "0 < n" by simp
  have e: "binade q = bitlen n - 1" using True by (simp add: binade_def n_def)
  from bitlen_bounds [OF npos] have lo: "2 ^ nat (bitlen n - 1) \<le> n" and hi: "n < 2 ^ nat (bitlen n)"
    by simp_all
  have b1: "1 \<le> bitlen n" using npos bitlen_eq_zero_iff [of n] bitlen_nonneg [of n] by linarith
  have "(2::rat) powi (bitlen n - 1) = of_int (2 ^ nat (bitlen n - 1))"
    using b1 by (simp add: powi_nat)
  also have "\<dots> \<le> of_int n" using lo by (simp only: of_int_le_iff)
  also have "\<dots> \<le> \<bar>q\<bar>" by (simp add: n_def)
  finally have A: "2 powi (binade q) \<le> \<bar>q\<bar>" by (simp add: e)
  have "\<bar>q\<bar> < of_int (n + 1)" unfolding n_def by linarith
  also have "\<dots> \<le> of_int (2 ^ nat (bitlen n))" using hi by (simp only: of_int_le_iff)
  also have "\<dots> = (2::rat) powi (bitlen n)" using b1 by (simp add: powi_nat)
  finally have B: "\<bar>q\<bar> < 2 powi (binade q + 1)" by (simp add: e)
  from A B show ?thesis ..
next
  case False
  define m where "m = \<bar>q\<bar>"
  have m0: "0 < m" and m1: "m < 1" using assms False by (simp_all add: m_def)
  define y where "y = 1 / m"
  have y1: "1 < y" using m0 m1 by (simp add: y_def)
  define n where "n = \<lceil>y\<rceil> - 1"
  have npos: "0 < n" using y1 unfolding n_def by (simp add: less_ceiling_iff)
  have ny: "of_int n < y" "y \<le> of_int n + 1" unfolding n_def by linarith+
  have e: "binade q = - bitlen n" using False by (simp add: binade_def n_def y_def m_def)
  have b1: "1 \<le> bitlen n" using npos bitlen_eq_zero_iff [of n] bitlen_nonneg [of n] by linarith
  from bitlen_bounds [OF npos] have lo: "2 ^ nat (bitlen n - 1) \<le> n" and hi: "n < 2 ^ nat (bitlen n)"
    by simp_all
  have "y \<le> of_int (n + 1)" using ny by simp
  also have "\<dots> \<le> of_int (2 ^ nat (bitlen n))" using hi by (simp only: of_int_le_iff)
  finally have yhi: "y \<le> 2 ^ nat (bitlen n)" by simp
  have "(of_int (2 ^ nat (bitlen n - 1)) :: rat) \<le> of_int n" using lo by (simp only: of_int_le_iff)
  also have "\<dots> < y" using ny by simp
  finally have ylo: "2 ^ nat (bitlen n - 1) < y" by simp
  have A: "2 powi (- bitlen n) \<le> m"
  proof -
    have "(2::rat) powi (- bitlen n) = 1 / 2 ^ nat (bitlen n)"
      using b1 by (simp add: power_int_def field_simps)
    also have "\<dots> \<le> 1 / y" using yhi y1 by (intro divide_left_mono) simp_all
    also have "\<dots> = m" by (simp add: y_def)
    finally show ?thesis .
  qed
  have B: "m < 2 powi (- bitlen n + 1)"
  proof (cases "bitlen n = 1")
    case True
    then show ?thesis using m1 by simp
  next
    case F: False
    with b1 have b2: "2 \<le> bitlen n" by simp
    have "m = 1 / y" by (simp add: y_def)
    also have "\<dots> < 1 / 2 ^ nat (bitlen n - 1)" using ylo y1 by (intro divide_strict_left_mono) (simp_all add: mult_pos_pos)
    also have "\<dots> = (2::rat) powi (- bitlen n + 1)"
      using b2 by (simp add: power_int_def field_simps nat_diff_distrib)
    finally show ?thesis .
  qed
  from A B show ?thesis by (simp add: e m_def)
qed

lemma powi_less_cancel:
  assumes "(2::rat) powi a < 2 powi b"
  shows "a < b"
proof (rule ccontr)
  assume "\<not> a < b"
  then have "b \<le> a" by simp
  then have "(2::rat) powi b \<le> 2 powi a" by (intro power_int_increasing) simp_all
  with assms show False by simp
qed

lemma powi_le_abs_nonzero:
  assumes "2 powi k \<le> \<bar>q::rat\<bar>"
  shows "q \<noteq> 0"
proof
  assume "q = 0"
  with assms have "(2::rat) powi k \<le> 0" by simp
  with powi_pos [of k] show False by linarith
qed

lemma binade_ge:
  assumes "2 powi k \<le> \<bar>q\<bar>"
  shows "k \<le> binade q"
proof -
  have "q \<noteq> 0" by (rule powi_le_abs_nonzero [OF assms])
  from binade_bounds [OF this] assms have "(2::rat) powi k < 2 powi (binade q + 1)" by linarith
  from powi_less_cancel [OF this] show ?thesis by simp
qed

lemma binade_le:
  assumes "q \<noteq> 0" and "\<bar>q\<bar> \<le> 2 powi k"
  shows "binade q \<le> k"
proof (rule ccontr)
  assume "\<not> binade q \<le> k"
  then have "k + 1 \<le> binade q" by simp
  then have "(2::rat) powi (k + 1) \<le> 2 powi (binade q)" by (intro power_int_increasing) simp_all
  moreover have "(2::rat) powi k < 2 powi (k + 1)" by (intro power_int_strict_increasing) simp_all
  ultimately show False using binade_bounds [OF assms(1)] assms(2) by linarith
qed

lemma round_double_normal:
  assumes "2 powi k \<le> \<bar>q\<bar>" and "- 1022 \<le> k"
  shows "round_double q
           = of_int (round_half_even (q / 2 powi (binade q - 52))) * 2 powi (binade q - 52)"
proof -
  have "q \<noteq> 0" by (rule powi_le_abs_nonzero [OF assms(1)])
  moreover have "max (binade q - 52) (- 1074) = binade q - 52"
    using binade_ge [OF assms(1)] assms(2) by simp
  ultimately show ?thesis by (simp add: round_double_def Let_def)
qed

lemma powi_split: "(2::rat) powi e = 2 powi (e - 52) * 2 ^ 52"
proof -
  have "(2::rat) powi e = 2 powi ((e - 52) + 52)" by simp
  also have "\<dots> = 2 powi (e - 52) * 2 powi 52" by (subst power_int_add) simp_all
  finally show ?thesis by simp
qed

lemma round_double_le_neg_powi:
  assumes "- 1022 \<le> k" and "q \<le> - (2 powi k)"
  shows "round_double q \<le> - (2 powi k)"
proof -
  let ?e = "binade q"
  let ?u = "(2::rat) powi (?e - 52)"
  have qn: "q < 0" using assms(2) powi_pos [of k] by linarith
  then have absq: "\<bar>q\<bar> = - q" by simp
  have k: "2 powi k \<le> \<bar>q\<bar>" using assms(2) absq by simp
  have ke: "k \<le> ?e" by (rule binade_ge [OF k])
  have u: "0 < ?u" by (rule powi_pos)
  have "q \<noteq> 0" using qn by simp
  from binade_bounds [OF this] have "2 powi ?e \<le> - q" using absq by simp
  then have "q \<le> - (?u * 2 ^ 52)" using powi_split [of ?e] by simp
  then have "q / ?u \<le> - (2 ^ 52)" using u by (simp add: pos_divide_le_eq mult.commute)
  then have "q / ?u \<le> of_int (- (2 ^ 52))" by simp
  from round_half_even_le [OF this] have "round_half_even (q / ?u) \<le> - (2 ^ 52)" .
  then have "(of_int (round_half_even (q / ?u)) :: rat) \<le> of_int (- (2 ^ 52))"
    by (simp only: of_int_le_iff)
  then have "of_int (round_half_even (q / ?u)) * ?u \<le> of_int (- (2 ^ 52)) * ?u"
    using u by (intro mult_right_mono) simp_all
  also have "\<dots> = - (2 powi ?e)" using powi_split [of ?e] by simp
  also have "\<dots> \<le> - (2 powi k)" using ke by (simp add: power_int_increasing)
  finally show ?thesis by (simp add: round_double_normal [OF k assms(1)])
qed

lemma round_double_error:
  assumes "2 powi (- 1022) \<le> \<bar>q\<bar>"
  shows "\<bar>round_double q - q\<bar> \<le> \<bar>q\<bar> / 2 ^ 53"
proof -
  let ?e = "binade q"
  let ?u = "(2::rat) powi (?e - 52)"
  let ?r = "of_int (round_half_even (q / ?u)) :: rat"
  have u: "0 < ?u" by (rule powi_pos)
  have "q \<noteq> 0" by (rule powi_le_abs_nonzero [OF assms])
  from binade_bounds [OF this] have lo: "2 powi ?e \<le> \<bar>q\<bar>" by simp
  have "round_double q - q = (?r - q / ?u) * ?u"
    using u by (simp add: round_double_normal [OF assms] algebra_simps)
  then have "\<bar>round_double q - q\<bar> = \<bar>?r - q / ?u\<bar> * ?u"
    using u by (simp add: abs_mult)
  also have "\<dots> \<le> (1 / 2) * ?u"
    using round_half_even_error [of "q / ?u"] u by (intro mult_right_mono) simp_all
  also have "\<dots> = 2 powi ?e / 2 ^ 53" using powi_split [of ?e] by simp
  also have "\<dots> \<le> \<bar>q\<bar> / 2 ^ 53" using lo by (simp add: divide_right_mono)
  finally show ?thesis .
qed

lemma round_double_of_int:
  assumes "\<bar>n\<bar> \<le> 2 ^ 53"
  shows "round_double (of_int n) = of_int n"
proof (cases "n = 0")
  case True
  then show ?thesis by (simp add: round_double_def)
next
  case False
  let ?q = "of_int n :: rat"
  let ?e = "binade ?q"
  let ?u = "(2::rat) powi (?e - 52)"
  have q0: "?q \<noteq> 0" using False by simp
  have "1 \<le> \<bar>n\<bar>" using False by simp
  then have "(1::rat) \<le> \<bar>?q\<bar>" by (metis of_int_1 of_int_abs of_int_le_iff)
  then have k0: "2 powi 0 \<le> \<bar>?q\<bar>" by simp
  have e0: "0 \<le> ?e" by (rule binade_ge [OF k0])
  have "\<bar>?q\<bar> \<le> of_int (2 ^ 53)" using assms by (metis of_int_abs of_int_le_iff)
  then have hi: "\<bar>?q\<bar> \<le> 2 powi 53" by simp
  have e53: "?e \<le> 53" by (rule binade_le [OF q0 hi])
  have rd: "round_double ?q = of_int (round_half_even (?q / ?u)) * ?u"
    by (rule round_double_normal [OF k0]) simp
  have "\<exists>m. ?q / ?u = of_int m"
  proof (cases "?e \<le> 52")
    case True
    then have "?u = 1 / 2 ^ nat (52 - ?e)"
      by (cases "?e = 52") (simp_all add: power_int_def field_simps)
    then have "?q / ?u = of_int (n * 2 ^ nat (52 - ?e))" by simp
    then show ?thesis ..
  next
    case F: False
    with e53 have e: "?e = 53" by simp
    from binade_bounds [OF q0] have "2 powi 53 \<le> \<bar>?q\<bar>" by (simp add: e)
    with hi have "\<bar>?q\<bar> = of_int (2 ^ 53)" by simp
    then have "\<bar>n\<bar> = 2 ^ 53" by (metis of_int_abs of_int_eq_iff)
    then have "2 dvd \<bar>n\<bar>" by simp
    then have "2 dvd n" by simp
    then have "n = 2 * (n div 2)" by simp
    then have h: "?q = 2 * of_int (n div 2)" by (metis of_int_mult of_int_numeral)
    have "?u = 2" by (simp add: e)
    then have "?q / ?u = ?q / 2" by simp
    also have "\<dots> = of_int (n div 2)" by (subst h) simp
    finally have "?q / ?u = of_int (n div 2)" .
    then show ?thesis ..
  qed
  then obtain m where m: "?q / ?u = of_int m" ..
  have "0 < ?u" by (rule powi_pos)
  then have "?q = of_int m * ?u" using m by (simp add: field_simps)
  then show ?thesis using rd m by (simp add: round_half_even_of_int)
qed

subsection \<open>Splitting\<close>

lemma js_split_not_Nil: "js_split sep s \<noteq> []"
  by (induction s) (auto split: list.splits)

lemma js_split_no_sep: "sep \<notin> set s \<Longrightarrow> js_split sep s = [s]"
  by (induction s) auto

lemma js_split_at_sep:
  "sep \<notin> set a \<Longrightarrow> js_split sep (a @ sep # rest) = a # js_split sep rest"
  by (induction a) auto

lemma js_split_slashed:
  assumes "CHR ''/'' \<notin> set a" "CHR ''/'' \<notin> set b" "CHR ''/'' \<notin> set c"
  shows "js_split CHR ''/'' (slashed a b c) = [a, b, c]"
  using assms by (simp add: slashed_def js_split_at_sep js_split_no_sep)

lemma template_at_three:
  "template_at [a, b, c] 0 = a" "template_at [a, b, c] 1 = b" "template_at [a, b, c] 2 = c"
  by (simp_all add: template_at_def)

subsection \<open>Failure of the window selection and of \<open>evaluate\<close>\<close>

lemma calculateRefundPeriod_Inl_iff:
  "calculateRefundPeriod newDate c = Inl e \<longleftrightarrow>
     Source c \<noteq> ''phone'' \<and> Source c \<noteq> ''web app'' \<and> e = Error ''Invalid Source''"
  by (auto simp: calculateRefundPeriod_def Let_def)

lemma calculateRefundPeriod_Inr_Num:
  "calculateRefundPeriod newDate c = Inr w \<Longrightarrow> w = Num 4 \<or> w = Num 8 \<or> w = Num 16"
  by (auto simp: calculateRefundPeriod_def Let_def split: if_splits)

lemma Source_parseCustomerInfo [simp]: "Source (parseCustomerInfo newDate data) = Source data"
  by (simp add: parseCustomerInfo_def Let_def)

lemma evaluate_Inl_iff:
  "evaluate newDate data = Inl e \<longleftrightarrow>
     Source data \<noteq> ''phone'' \<and> Source data \<noteq> ''web app'' \<and> e = Error ''Invalid Source''"
proof (cases "calculateRefundPeriod newDate (parseCustomerInfo newDate data)")
  case (Inl e')
  then show ?thesis
    using calculateRefundPeriod_Inl_iff [of newDate "parseCustomerInfo newDate data" e']
    by (auto simp: evaluate_def Let_def)
next
  case (Inr w)
  then show ?thesis
    using calculateRefundPeriod_Inl_iff [of newDate "parseCustomerInfo newDate data"]
    by (auto simp: evaluate_def Let_def)
qed

lemma evaluate_Inr_fields:
  assumes "evaluate newDate data = Inr r"
  shows "\<exists>w. calculateRefundPeriod newDate (parseCustomerInfo newDate data) = Inr w
           \<and> refundPeriod r = w
           \<and> requestTiming r = calculateRequestTiming (parseCustomerInfo newDate data)
           \<and> isRequestValid r = js_le (calculateRequestTiming (parseCustomerInfo newDate data)) w
           \<and> InvestmentDate r = InvestmentDate (parseCustomerInfo newDate data)
           \<and> RefundDate r = RefundDate (parseCustomerInfo newDate data)
           \<and> SignupDate r = SignupDate (parseCustomerInfo newDate data)"
  using assms by (auto simp: evaluate_def Let_def split: sum.splits)

lemma evaluate_valid_Source:
  assumes "Source data = ''phone'' \<or> Source data = ''web app''"
  shows "\<exists>r. evaluate newDate data = Inr r"
proof (cases "evaluate newDate data")
  case (Inl e)
  with assms show ?thesis by (auto simp: evaluate_Inl_iff)
next
  case (Inr r)
  then show ?thesis by blast
qed

subsection \<open>\<open>map\<close> with an exception\<close>

lemma array_map_Inl:
  assumes "\<And>x e. f x = Inl e \<Longrightarrow> e = e0" and "\<exists>x \<in> set xs. isl (f x)"
  shows "array_map f xs = Inl e0"
  using assms(2)
proof (induction xs)
  case Nil
  then show ?case by simp
next
  case (Cons x xs)
  show ?case
  proof (cases "f x")
    case (Inl e)
    then show ?thesis using assms(1) by simp
  next
    case (Inr y)
    then have "\<exists>x \<in> set xs. isl (f x)" using Cons.prems by auto
    then show ?thesis using Cons.IH Inr by simp
  qed
qed

subsection \<open>The normalised record of a well-formed raw record\<close>

lemma parseCustomerInfo_three_components:
  assumes "SignupDate data = slashed a1 b1 c1"
    and "InvestmentDate data = slashed a2 b2 c2"
    and "RefundDate data = slashed a3 b3 c3"
    and "CHR ''/'' \<notin> set a1 \<union> set b1 \<union> set c1"
    and "CHR ''/'' \<notin> set a2 \<union> set b2 \<union> set c2"
    and "CHR ''/'' \<notin> set a3 \<union> set b3 \<union> set c3"
  shows "parseCustomerInfo newDate data =
     \<lparr> Name = Name data, Location = Location data,
       SignupDate = newDate (if Location data = ''US'' then slashed a1 b1 c1 else slashed b1 a1 c1),
       Source = Source data,
       InvestmentDate = newDate ((if Location data = ''US'' then slashed a2 b2 c2 else slashed b2 a2 c2)
                                  @ '' '' @ InvestmentTime data),
       InvestmentTime = InvestmentTime data,
       RefundDate = newDate ((if Location data = ''US'' then slashed a3 b3 c3 else slashed b3 a3 c3)
                              @ '' '' @ RefundTime data),
       RefundTime = RefundTime data,
       isRequestValid = False \<rparr>"
proof -
  have s1: "js_split CHR ''/'' (SignupDate data) = [a1, b1, c1]"
    using assms(1,4) by (simp add: js_split_slashed)
  have s2: "js_split CHR ''/'' (InvestmentDate data) = [a2, b2, c2]"
    using assms(2,5) by (simp add: js_split_slashed)
  have s3: "js_split CHR ''/'' (RefundDate data) = [a3, b3, c3]"
    using assms(3,6) by (simp add: js_split_slashed)
  show ?thesis
    unfolding parseCustomerInfo_def Let_def s1 s2 s3 template_at_three by simp
qed

subsection \<open>The quotient of the elapsed time\<close>

lemma powi_minus_22: "(2::rat) powi (- 22) = 1 / 4194304"
  by (simp add: power_int_minus field_simps)

lemma hours_quotient_normal:
  assumes "(n::int) \<noteq> 0"
  shows "2 powi (- 1022) \<le> \<bar>of_int n / 3600000 :: rat\<bar>"
proof -
  have "(2::rat) powi (- 1022) \<le> 2 powi (- 22)" by (intro power_int_increasing) simp_all
  also have "\<dots> \<le> 1 / 3600000" by (simp add: powi_minus_22)
  also have "\<dots> \<le> \<bar>of_int n\<bar> / 3600000"
  proof -
    have "1 \<le> \<bar>n\<bar>" using assms by simp
    then have "(1::rat) \<le> \<bar>of_int n\<bar>" by (metis of_int_1 of_int_abs of_int_le_iff)
    then show ?thesis by (simp add: divide_right_mono)
  qed
  finally show ?thesis by simp
qed

lemma elapsed_negative:
  assumes "(r::int) < i"
  shows "round_double (round_double (of_int (r - i)) / 3600000) < 0"
proof -
  have "r - i \<le> - 1" using assms by simp
  then have "(of_int (r - i) :: rat) \<le> of_int (- 1)" by (simp only: of_int_le_iff)
  then have "(of_int (r - i) :: rat) \<le> - (2 powi 0)" by simp
  then have "round_double (of_int (r - i)) \<le> - (2 powi 0)"
    by (intro round_double_le_neg_powi) simp_all
  then have y: "round_double (of_int (r - i)) \<le> - 1" by simp
  have "round_double (of_int (r - i)) / 3600000 \<le> - 1 / 3600000"
    using y by (simp add: divide_right_mono)
  also have "\<dots> \<le> - (2 powi (- 22))" by (simp add: powi_minus_22)
  finally have "round_double (round_double (of_int (r - i)) / 3600000) \<le> - (2 powi (- 22))"
    by (intro round_double_le_neg_powi) simp_all
  then show ?thesis using powi_pos [of "- 22"] by linarith
qed

subsection \<open>An Invalid Date in the table\<close>

text \<open>A record that \<open>evaluate\<close> accepts, and whose refund date \<open>format\<close> rejects.\<close>

lemma Home_Invalid_Date_example:
  "Home referenceDate [scenario1\<lparr>RefundDate := ''2024-01-10''\<rparr>] = Inl (RangeError ''Invalid time value'')"
  by code_simp

section \<open>The claims\<close>

subsection \<open>C2: the table of refund windows\<close>

text \<open>
  C2. For every normalised record whose \<open>Source\<close> is one of the two accepted literals,
  \<open>calculateRefundPeriod\<close> returns the entry of the two-by-two table keyed on the
  \<open>Source\<close> and on whether the signup is before the cutoff: phone 4 and 8, web app 8
  and 16; so the result is one of 4, 8 and 16.
\<close>

theorem calculateRefundPeriod_table:
  assumes "Source c = ''phone'' \<or> Source c = ''web app''"
  shows "(Source c = ''phone'' \<and> isBefore (SignupDate c) (newDate ''01-02-2020'')
            \<longrightarrow> calculateRefundPeriod newDate c = Inr (Num 4))
       \<and> (Source c = ''phone'' \<and> \<not> isBefore (SignupDate c) (newDate ''01-02-2020'')
            \<longrightarrow> calculateRefundPeriod newDate c = Inr (Num 8))
       \<and> (Source c = ''web app'' \<and> isBefore (SignupDate c) (newDate ''01-02-2020'')
            \<longrightarrow> calculateRefundPeriod newDate c = Inr (Num 8))
       \<and> (Source c = ''web app'' \<and> \<not> isBefore (SignupDate c) (newDate ''01-02-2020'')
            \<longrightarrow> calculateRefundPeriod newDate c = Inr (Num 16))
       \<and> calculateRefundPeriod newDate c \<in> {Inr (Num 4), Inr (Num 8), Inr (Num 16)}"
  using assms by (auto simp: calculateRefundPeriod_def Let_def)

text \<open>Scenario 1 is a phone signup of 2019, scenario 3 a web app signup of 2021.\<close>

theorem calculateRefundPeriod_table_witness:
  "isBefore (SignupDate (parseCustomerInfo referenceDate scenario1)) (referenceDate ''01-02-2020'')
   \<and> calculateRefundPeriod referenceDate (parseCustomerInfo referenceDate scenario1) = Inr (Num 4)
   \<and> \<not> isBefore (SignupDate (parseCustomerInfo referenceDate scenario3)) (referenceDate ''01-02-2020'')
   \<and> calculateRefundPeriod referenceDate (parseCustomerInfo referenceDate scenario3) = Inr (Num 16)"
proof -
  let ?c1 = "parseCustomerInfo referenceDate scenario1"
  let ?c3 = "parseCustomerInfo referenceDate scenario3"
  have s1: "Source ?c1 = ''phone''" by (simp add: scenario1_def)
  have b1: "isBefore (SignupDate ?c1) (referenceDate ''01-02-2020'')" by code_simp
  have s3: "Source ?c3 = ''web app''" by (simp add: scenario3_def)
  have b3: "\<not> isBefore (SignupDate ?c3) (referenceDate ''01-02-2020'')" by code_simp
  from calculateRefundPeriod_table [of ?c1 referenceDate] s1 b1
  have r1: "calculateRefundPeriod referenceDate ?c1 = Inr (Num 4)" by blast
  from calculateRefundPeriod_table [of ?c3 referenceDate] s3 b3
  have r3: "calculateRefundPeriod referenceDate ?c3 = Inr (Num 16)" by blast
  from b1 r1 b3 r3 show ?thesis by blast
qed

subsection \<open>C10: the accepted \<open>Source\<close> literals\<close>

text \<open>
  C10. \<open>calculateRefundPeriod\<close> throws exactly when the \<open>Source\<close> is neither \<open>phone\<close>
  nor \<open>web app\<close> (with a space); the error it throws is always \<open>Invalid Source\<close>, and
  the hyphenated \<open>web-app\<close> is among the rejected strings.
\<close>

theorem calculateRefundPeriod_accepts_exactly:
  "(calculateRefundPeriod newDate c = Inl (Error ''Invalid Source'')
      \<longleftrightarrow> Source c \<noteq> ''phone'' \<and> Source c \<noteq> ''web app'')
   \<and> (\<forall>e. calculateRefundPeriod newDate c = Inl e \<longrightarrow> e = Error ''Invalid Source'')
   \<and> (Source c = ''web-app'' \<longrightarrow> calculateRefundPeriod newDate c = Inl (Error ''Invalid Source''))"
  by (auto simp: calculateRefundPeriod_Inl_iff)

text \<open>Scenario 3 with the hyphenated \<open>Source\<close>.\<close>

theorem calculateRefundPeriod_accepts_exactly_witness:
  "calculateRefundPeriod referenceDate (parseCustomerInfo referenceDate (scenario3\<lparr>Source := ''web-app''\<rparr>))
     = Inl (Error ''Invalid Source'')"
proof -
  let ?c = "parseCustomerInfo referenceDate (scenario3\<lparr>Source := ''web-app''\<rparr>)"
  have "Source ?c = ''web-app''" by simp
  with calculateRefundPeriod_accepts_exactly [of referenceDate ?c] show ?thesis by blast
qed

subsection \<open>C3: the normaliser reorders the date by \<open>Location\<close>\<close>

text \<open>
  C3. When each of the three date strings consists of three components separated by
  slashes, \<open>parseCustomerInfo\<close> splits it into these components; for \<open>Location\<close> US
  it reassembles them in the same order, for \<open>Location\<close> Europe it swaps the first
  two; the investment and refund timestamps are built from the reassembled date, a
  space and the time-of-day string, the signup timestamp from the date alone.
\<close>

theorem parseCustomerInfo_reorders_by_Location:
  assumes "SignupDate data = slashed a1 b1 c1"
    and "InvestmentDate data = slashed a2 b2 c2"
    and "RefundDate data = slashed a3 b3 c3"
    and "CHR ''/'' \<notin> set a1 \<union> set b1 \<union> set c1"
    and "CHR ''/'' \<notin> set a2 \<union> set b2 \<union> set c2"
    and "CHR ''/'' \<notin> set a3 \<union> set b3 \<union> set c3"
  shows "js_split CHR ''/'' (SignupDate data) = [a1, b1, c1]
       \<and> js_split CHR ''/'' (InvestmentDate data) = [a2, b2, c2]
       \<and> js_split CHR ''/'' (RefundDate data) = [a3, b3, c3]
       \<and> (Location data = ''US'' \<longrightarrow>
            SignupDate (parseCustomerInfo newDate data) = newDate (slashed a1 b1 c1)
          \<and> InvestmentDate (parseCustomerInfo newDate data)
              = newDate (slashed a2 b2 c2 @ '' '' @ InvestmentTime data)
          \<and> RefundDate (parseCustomerInfo newDate data)
              = newDate (slashed a3 b3 c3 @ '' '' @ RefundTime data))
       \<and> (Location data = ''Europe'' \<longrightarrow>
            SignupDate (parseCustomerInfo newDate data) = newDate (slashed b1 a1 c1)
          \<and> InvestmentDate (parseCustomerInfo newDate data)
              = newDate (slashed b2 a2 c2 @ '' '' @ InvestmentTime data)
          \<and> RefundDate (parseCustomerInfo newDate data)
              = newDate (slashed b3 a3 c3 @ '' '' @ RefundTime data))"
proof -
  have s1: "js_split CHR ''/'' (SignupDate data) = [a1, b1, c1]"
    using assms(1,4) by (simp add: js_split_slashed)
  have s2: "js_split CHR ''/'' (InvestmentDate data) = [a2, b2, c2]"
    using assms(2,5) by (simp add: js_split_slashed)
  have s3: "js_split CHR ''/'' (RefundDate data) = [a3, b3, c3]"
    using assms(3,6) by (simp add: js_split_slashed)
  note p = parseCustomerInfo_three_components [OF assms, of newDate]
  show ?thesis unfolding p using s1 s2 s3 by simp
qed

text \<open>Scenario 3 is written day first; the strings handed to \<open>Date\<close> are month first.\<close>

theorem parseCustomerInfo_reorders_by_Location_witness:
  "SignupDate (parseCustomerInfo referenceDate scenario3) = referenceDate ''03/15/2021''
   \<and> InvestmentDate (parseCustomerInfo referenceDate scenario3) = referenceDate ''06/01/2024 09:00''
   \<and> RefundDate (parseCustomerInfo referenceDate scenario3) = referenceDate ''06/02/2024 00:00''
   \<and> referenceDate ''03/15/2021'' = Some 1615766400000"
proof -
  have g: "CHR ''/'' \<notin> set ''15'' \<union> set ''03'' \<union> set ''2021''"
    "CHR ''/'' \<notin> set ''01'' \<union> set ''06'' \<union> set ''2024''"
    "CHR ''/'' \<notin> set ''02'' \<union> set ''06'' \<union> set ''2024''"
    by simp_all
  have d: "SignupDate scenario3 = slashed ''15'' ''03'' ''2021''"
    "InvestmentDate scenario3 = slashed ''01'' ''06'' ''2024''"
    "RefundDate scenario3 = slashed ''02'' ''06'' ''2024''"
    by (simp_all add: scenario3_def slashed_def)
  have l: "Location scenario3 = ''Europe''" by (simp add: scenario3_def)
  have v: "referenceDate ''03/15/2021'' = Some 1615766400000" by code_simp
  from parseCustomerInfo_reorders_by_Location [OF d g, of referenceDate] l
  have "SignupDate (parseCustomerInfo referenceDate scenario3) = referenceDate (slashed ''03'' ''15'' ''2021'')
      \<and> InvestmentDate (parseCustomerInfo referenceDate scenario3)
          = referenceDate (slashed ''06'' ''01'' ''2024'' @ '' '' @ InvestmentTime scenario3)
      \<and> RefundDate (parseCustomerInfo referenceDate scenario3)
          = referenceDate (slashed ''06'' ''02'' ''2024'' @ '' '' @ RefundTime scenario3)"
    by blast
  then show ?thesis using v by (simp add: slashed_def scenario3_def)
qed

subsection \<open>C6: both conventions give the same timestamps\<close>

text \<open>
  C6. Two raw records that write the same three dates and the same times of day, one
  month first with \<open>Location\<close> US and one day first with \<open>Location\<close> Europe, are
  normalised to the same three timestamps, whatever the \<open>Date\<close> constructor does
  with a string.
\<close>

theorem same_instant_in_both_conventions:
  assumes "Location us = ''US''" and "Location eu = ''Europe''"
    and "SignupDate us = slashed m1 d1 y1" and "SignupDate eu = slashed d1 m1 y1"
    and "InvestmentDate us = slashed m2 d2 y2" and "InvestmentDate eu = slashed d2 m2 y2"
    and "RefundDate us = slashed m3 d3 y3" and "RefundDate eu = slashed d3 m3 y3"
    and "InvestmentTime us = InvestmentTime eu" and "RefundTime us = RefundTime eu"
    and "CHR ''/'' \<notin> set m1 \<union> set d1 \<union> set y1"
    and "CHR ''/'' \<notin> set m2 \<union> set d2 \<union> set y2"
    and "CHR ''/'' \<notin> set m3 \<union> set d3 \<union> set y3"
  shows "SignupDate (parseCustomerInfo newDate us) = SignupDate (parseCustomerInfo newDate eu)
       \<and> InvestmentDate (parseCustomerInfo newDate us) = InvestmentDate (parseCustomerInfo newDate eu)
       \<and> RefundDate (parseCustomerInfo newDate us) = RefundDate (parseCustomerInfo newDate eu)"
proof -
  have e1: "CHR ''/'' \<notin> set d1 \<union> set m1 \<union> set y1" using assms(11) by auto
  have e2: "CHR ''/'' \<notin> set d2 \<union> set m2 \<union> set y2" using assms(12) by auto
  have e3: "CHR ''/'' \<notin> set d3 \<union> set m3 \<union> set y3" using assms(13) by auto
  note u = parseCustomerInfo_three_components [OF assms(3,5,7,11,12,13), of newDate]
  note e = parseCustomerInfo_three_components [OF assms(4,6,8) e1 e2 e3, of newDate]
  show ?thesis unfolding u e using assms(1,2,9,10) by simp
qed

text \<open>Scenario 3 and the same record written month first.\<close>

theorem same_instant_in_both_conventions_witness:
  "SignupDate (parseCustomerInfo referenceDate (scenario3\<lparr>Location := ''US'', SignupDate := ''03/15/2021'',
       InvestmentDate := ''06/01/2024'', RefundDate := ''06/02/2024''\<rparr>))
     = SignupDate (parseCustomerInfo referenceDate scenario3)
   \<and> InvestmentDate (parseCustomerInfo referenceDate (scenario3\<lparr>Location := ''US'', SignupDate := ''03/15/2021'',
       InvestmentDate := ''06/01/2024'', RefundDate := ''06/02/2024''\<rparr>))
     = InvestmentDate (parseCustomerInfo referenceDate scenario3)
   \<and> RefundDate (parseCustomerInfo referenceDate (scenario3\<lparr>Location := ''US'', SignupDate := ''03/15/2021'',
       InvestmentDate := ''06/01/2024'', RefundDate := ''06/02/2024''\<rparr>))
     = RefundDate (parseCustomerInfo referenceDate scenario3)
   \<and> InvestmentDate (parseCustomerInfo referenceDate scenario3) = Some 1717232400000"
proof -
  let ?us = "scenario3\<lparr>Location := ''US'', SignupDate := ''03/15/2021'',
       InvestmentDate := ''06/01/2024'', RefundDate := ''06/02/2024''\<rparr>"
  have g: "CHR ''/'' \<notin> set ''03'' \<union> set ''15'' \<union> set ''2021''"
    "CHR ''/'' \<notin> set ''06'' \<union> set ''01'' \<union> set ''2024''"
    "CHR ''/'' \<notin> set ''06'' \<union> set ''02'' \<union> set ''2024''"
    by simp_all
  have v: "InvestmentDate (parseCustomerInfo referenceDate scenario3) = Some 1717232400000"
    by code_simp
  have "SignupDate (parseCustomerInfo referenceDate ?us) = SignupDate (parseCustomerInfo referenceDate scenario3)
       \<and> InvestmentDate (parseCustomerInfo referenceDate ?us) = InvestmentDate (parseCustomerInfo referenceDate scenario3)
       \<and> RefundDate (parseCustomerInfo referenceDate ?us) = RefundDate (parseCustomerInfo referenceDate scenario3)"
    by (rule same_instant_in_both_conventions [OF _ _ _ _ _ _ _ _ _ _ g])
       (simp_all add: scenario3_def slashed_def)
  with v show ?thesis by simp
qed

subsection \<open>C9: malformed dates do not raise\<close>

text \<open>
  C9. \<open>parseCustomerInfo\<close> and \<open>calculateRequestTiming\<close> return a value on every raw
  record. When the investment or the refund string does not parse, the elapsed time
  is \<open>NaN\<close>; \<open>evaluate\<close> throws only for a \<open>Source\<close> that is not accepted, and for an
  accepted \<open>Source\<close> it returns a result with \<open>isRequestValid\<close> false.
\<close>

theorem malformed_dates_give_NaN_and_invalid:
  assumes "InvestmentDate (parseCustomerInfo newDate data) = None
         \<or> RefundDate (parseCustomerInfo newDate data) = None"
  shows "calculateRequestTiming (parseCustomerInfo newDate data) = NaN
       \<and> (\<forall>e. evaluate newDate data = Inl e \<longrightarrow>
            Source data \<noteq> ''phone'' \<and> Source data \<noteq> ''web app'')
       \<and> (Source data = ''phone'' \<or> Source data = ''web app'' \<longrightarrow>
            (\<exists>res. evaluate newDate data = Inr res
                 \<and> requestTiming res = NaN \<and> \<not> isRequestValid res))"
proof -
  let ?c = "parseCustomerInfo newDate data"
  have t: "calculateRequestTiming ?c = NaN"
  proof (cases "InvestmentDate ?c")
    case None
    then show ?thesis by (cases "RefundDate ?c") (simp_all add: calculateRequestTiming_def)
  next
    case (Some i)
    with assms have "RefundDate ?c = None" by simp
    with Some show ?thesis by (simp add: calculateRequestTiming_def)
  qed
  have ev: "\<exists>res. evaluate newDate data = Inr res \<and> requestTiming res = NaN \<and> \<not> isRequestValid res"
    if src: "Source data = ''phone'' \<or> Source data = ''web app''"
  proof -
    from evaluate_valid_Source [OF src] obtain res where res: "evaluate newDate data = Inr res"
      by blast
    from evaluate_Inr_fields [OF res] have "requestTiming res = NaN \<and> \<not> isRequestValid res"
      using t by auto
    with res show ?thesis by blast
  qed
  show ?thesis using t ev by (auto simp: evaluate_Inl_iff)
qed

text \<open>Scenario 1 with a refund date that has no slash.\<close>

theorem malformed_dates_give_NaN_and_invalid_witness:
  "RefundDate (parseCustomerInfo referenceDate (scenario1\<lparr>RefundDate := ''2024-01-10''\<rparr>)) = None
   \<and> calculateRequestTiming (parseCustomerInfo referenceDate (scenario1\<lparr>RefundDate := ''2024-01-10''\<rparr>)) = NaN
   \<and> \<not> isl (evaluate referenceDate (scenario1\<lparr>RefundDate := ''2024-01-10''\<rparr>))
   \<and> \<not> isRequestValid (projr (evaluate referenceDate (scenario1\<lparr>RefundDate := ''2024-01-10''\<rparr>)))"
proof -
  let ?d = "scenario1\<lparr>RefundDate := ''2024-01-10''\<rparr>"
  have n: "RefundDate (parseCustomerInfo referenceDate ?d) = None" by code_simp
  have s: "Source ?d = ''phone''" by (simp add: scenario1_def)
  from malformed_dates_give_NaN_and_invalid [of referenceDate ?d] n s
  have t: "calculateRequestTiming (parseCustomerInfo referenceDate ?d) = NaN"
    and "\<exists>res. evaluate referenceDate ?d = Inr res \<and> requestTiming res = NaN \<and> \<not> isRequestValid res"
    by simp_all
  then obtain res where "evaluate referenceDate ?d = Inr res" and "\<not> isRequestValid res"
    by blast
  then show ?thesis using n t by simp
qed

subsection \<open>C8: a \<open>Location\<close> outside US and Europe\<close>

text \<open>
  C8 as stated says that such a record fails and that no ordering is guessed. The
  normaliser only asks whether the \<open>Location\<close> is \<open>US\<close>: scenario 3 with \<open>Location\<close>
  Asia is evaluated, its day-first signup date read as March 15, 2021.
\<close>

theorem unsupported_Location_counterexample:
  "\<not> isl (evaluate referenceDate (scenario3\<lparr>Location := ''Asia''\<rparr>))
   \<and> SignupDate (projr (evaluate referenceDate (scenario3\<lparr>Location := ''Asia''\<rparr>)))
       = referenceDate ''03/15/2021''
   \<and> referenceDate ''03/15/2021'' = Some 1615766400000
   \<and> isRequestValid (projr (evaluate referenceDate (scenario3\<lparr>Location := ''Asia''\<rparr>)))"
  by code_simp

text \<open>
  C8, amended. A record whose \<open>Location\<close> is any string other than \<open>US\<close>, an
  unsupported one included, is not rejected: it is normalised as the same record with
  \<open>Location\<close> Europe is, the first two date components swapped, and its evaluation
  fails only when its \<open>Source\<close> is not accepted.
\<close>

theorem Location_other_than_US_is_day_first:
  assumes "Location data \<noteq> ''US''"
  shows "parseCustomerInfo newDate data
           = (parseCustomerInfo newDate (data\<lparr>Location := ''Europe''\<rparr>))\<lparr>Location := Location data\<rparr>
       \<and> (isl (evaluate newDate data) \<longleftrightarrow> Source data \<noteq> ''phone'' \<and> Source data \<noteq> ''web app'')"
proof -
  have p: "parseCustomerInfo newDate data
           = (parseCustomerInfo newDate (data\<lparr>Location := ''Europe''\<rparr>))\<lparr>Location := Location data\<rparr>"
    using assms by (simp add: parseCustomerInfo_def Let_def)
  have e: "isl (evaluate newDate data) \<longleftrightarrow> Source data \<noteq> ''phone'' \<and> Source data \<noteq> ''web app''"
  proof
    assume "isl (evaluate newDate data)"
    then obtain e where "evaluate newDate data = Inl e"
      by (cases "evaluate newDate data") auto
    then show "Source data \<noteq> ''phone'' \<and> Source data \<noteq> ''web app''"
      by (simp add: evaluate_Inl_iff)
  next
    assume "Source data \<noteq> ''phone'' \<and> Source data \<noteq> ''web app''"
    then have "evaluate newDate data = Inl (Error ''Invalid Source'')"
      by (simp add: evaluate_Inl_iff)
    then show "isl (evaluate newDate data)" by simp
  qed
  from p e show ?thesis by blast
qed

text \<open>Scenario 3 with \<open>Location\<close> Asia.\<close>

theorem Location_other_than_US_is_day_first_witness:
  "parseCustomerInfo referenceDate (scenario3\<lparr>Location := ''Asia''\<rparr>)
     = (parseCustomerInfo referenceDate scenario3)\<lparr>Location := ''Asia''\<rparr>
   \<and> \<not> isl (evaluate referenceDate (scenario3\<lparr>Location := ''Asia''\<rparr>))"
proof -
  let ?d = "scenario3\<lparr>Location := ''Asia''\<rparr>"
  have l: "Location ?d \<noteq> ''US''" by simp
  have u: "?d\<lparr>Location := ''Europe''\<rparr> = scenario3" by (simp add: scenario3_def)
  have s: "Source ?d = ''web app''" by (simp add: scenario3_def)
  from Location_other_than_US_is_day_first [OF l, of referenceDate]
  show ?thesis unfolding u using s by simp
qed

subsection \<open>C1: the verdict is the non-strict comparison\<close>

text \<open>
  C1. For every record that \<open>evaluate\<close> returns a result for, the result carries the
  elapsed hours and the refund window that the code computes from the normalised
  record, and \<open>isRequestValid\<close> is true exactly when the elapsed hours are a number
  less than or equal to the window; in particular elapsed hours equal to the window
  are valid.
\<close>

theorem evaluate_verdict_iff_within_window:
  assumes "evaluate newDate data = Inr r"
  shows "requestTiming r = calculateRequestTiming (parseCustomerInfo newDate data)
       \<and> calculateRefundPeriod newDate (parseCustomerInfo newDate data) = Inr (refundPeriod r)
       \<and> (isRequestValid r \<longleftrightarrow>
            (\<exists>h w. requestTiming r = Num h \<and> refundPeriod r = Num w \<and> h \<le> w))
       \<and> (requestTiming r = refundPeriod r \<longrightarrow> isRequestValid r)"
proof -
  from evaluate_Inr_fields [OF assms] obtain w where
    w: "calculateRefundPeriod newDate (parseCustomerInfo newDate data) = Inr w"
    and rp: "refundPeriod r = w"
    and rt: "requestTiming r = calculateRequestTiming (parseCustomerInfo newDate data)"
    and v: "isRequestValid r = js_le (calculateRequestTiming (parseCustomerInfo newDate data)) w"
    by auto
  from calculateRefundPeriod_Inr_Num [OF w] obtain k where k: "w = Num k" by auto
  have cmp: "(isRequestValid r \<longleftrightarrow>
            (\<exists>h w. requestTiming r = Num h \<and> refundPeriod r = Num w \<and> h \<le> w))
         \<and> (requestTiming r = refundPeriod r \<longrightarrow> isRequestValid r)"
  proof (cases "requestTiming r")
    case NaN
    then show ?thesis using v rt rp k by simp
  next
    case (Num h)
    then show ?thesis using v rt rp k by simp
  qed
  from w rp have w': "calculateRefundPeriod newDate (parseCustomerInfo newDate data)
                        = Inr (refundPeriod r)"
    by simp
  from rt w' cmp show ?thesis by blast
qed

text \<open>
  Scenario 1 with the refund at 14:00, four hours after the investment with window 4,
  and at 15:00, five hours after it.
\<close>

theorem evaluate_verdict_iff_within_window_witness:
  "isRequestValid (projr (evaluate referenceDate (scenario1\<lparr>RefundTime := ''14:00''\<rparr>)))
   \<and> calculateRequestTiming (parseCustomerInfo referenceDate (scenario1\<lparr>RefundTime := ''14:00''\<rparr>)) = Num 4
   \<and> calculateRefundPeriod referenceDate (parseCustomerInfo referenceDate (scenario1\<lparr>RefundTime := ''14:00''\<rparr>))
       = Inr (Num 4)
   \<and> \<not> isRequestValid (projr (evaluate referenceDate (scenario1\<lparr>RefundTime := ''15:00''\<rparr>)))
   \<and> calculateRequestTiming (parseCustomerInfo referenceDate (scenario1\<lparr>RefundTime := ''15:00''\<rparr>)) = Num 5
   \<and> calculateRefundPeriod referenceDate (parseCustomerInfo referenceDate (scenario1\<lparr>RefundTime := ''15:00''\<rparr>))
       = Inr (Num 4)"
proof -
  let ?d = "scenario1\<lparr>RefundTime := ''14:00''\<rparr>"
  let ?r = "projr (evaluate referenceDate ?d)"
  let ?d' = "scenario1\<lparr>RefundTime := ''15:00''\<rparr>"
  let ?r' = "projr (evaluate referenceDate ?d')"
  have "\<not> isl (evaluate referenceDate ?d)" by code_simp
  then have run: "evaluate referenceDate ?d = Inr ?r" by (cases "evaluate referenceDate ?d") auto
  have "\<not> isl (evaluate referenceDate ?d')" by code_simp
  then have run': "evaluate referenceDate ?d' = Inr ?r'" by (cases "evaluate referenceDate ?d'") auto
  have t: "calculateRequestTiming (parseCustomerInfo referenceDate ?d) = Num 4" by code_simp
  have t': "calculateRequestTiming (parseCustomerInfo referenceDate ?d') = Num 5" by code_simp
  have p: "calculateRefundPeriod referenceDate (parseCustomerInfo referenceDate ?d) = Inr (Num 4)"
    by code_simp
  have p': "calculateRefundPeriod referenceDate (parseCustomerInfo referenceDate ?d') = Inr (Num 4)"
    by code_simp
  note th = evaluate_verdict_iff_within_window [OF run]
  note th' = evaluate_verdict_iff_within_window [OF run']
  have "requestTiming ?r = Num 4" "refundPeriod ?r = Num 4" using th t p by simp_all
  then have a: "isRequestValid ?r" using th by simp
  have "requestTiming ?r' = Num 5" "refundPeriod ?r' = Num 4" using th' t' p' by simp_all
  moreover from th' have "isRequestValid ?r' \<longleftrightarrow>
            (\<exists>h w. requestTiming ?r' = Num h \<and> refundPeriod ?r' = Num w \<and> h \<le> w)"
    by blast
  ultimately have b: "\<not> isRequestValid ?r'" by simp
  from a b t t' p p' show ?thesis by blast
qed

subsection \<open>C4: the cutoff and its boundary\<close>

text \<open>
  C4. The cutoff is the one instant that \<open>Date\<close> reads from the literal \<open>01-02-2020\<close>,
  the same for every record. The window is selected by the strict comparison of the
  signup timestamp with it: the lower window (4 for phone, 8 for web app) exactly when
  the signup timestamp is less than the cutoff, the higher one (8 and 16) otherwise; so
  a signup exactly at the cutoff selects the higher window.
\<close>

theorem window_selected_by_strict_comparison:
  assumes "newDate ''01-02-2020'' = Some k" and "SignupDate c = Some s"
  shows "(Source c = ''phone'' \<longrightarrow>
            calculateRefundPeriod newDate c = Inr (if s < k then Num 4 else Num 8))
       \<and> (Source c = ''web app'' \<longrightarrow>
            calculateRefundPeriod newDate c = Inr (if s < k then Num 8 else Num 16))
       \<and> (s = k \<and> Source c = ''phone'' \<longrightarrow> calculateRefundPeriod newDate c = Inr (Num 8))
       \<and> (s = k \<and> Source c = ''web app'' \<longrightarrow> calculateRefundPeriod newDate c = Inr (Num 16))"
proof -
  have b: "isBefore (SignupDate c) (newDate ''01-02-2020'') \<longleftrightarrow> s < k"
    using assms by (simp add: isBefore_def)
  show ?thesis using b by (auto simp: calculateRefundPeriod_def Let_def)
qed

text \<open>
  Read as month-day-year the literal is midnight of January 2, 2020. Scenario 1 with
  the signup on that day, and on the day before.
\<close>

theorem window_selected_by_strict_comparison_witness:
  "referenceDate ''01-02-2020'' = Some 1577923200000
   \<and> SignupDate (parseCustomerInfo referenceDate (scenario1\<lparr>SignupDate := ''01/02/2020''\<rparr>)) = Some 1577923200000
   \<and> calculateRefundPeriod referenceDate (parseCustomerInfo referenceDate (scenario1\<lparr>SignupDate := ''01/02/2020''\<rparr>))
       = Inr (Num 8)
   \<and> SignupDate (parseCustomerInfo referenceDate (scenario1\<lparr>SignupDate := ''01/01/2020''\<rparr>)) = Some 1577836800000
   \<and> calculateRefundPeriod referenceDate (parseCustomerInfo referenceDate (scenario1\<lparr>SignupDate := ''01/01/2020''\<rparr>))
       = Inr (Num 4)"
proof -
  let ?c = "parseCustomerInfo referenceDate (scenario1\<lparr>SignupDate := ''01/02/2020''\<rparr>)"
  let ?c' = "parseCustomerInfo referenceDate (scenario1\<lparr>SignupDate := ''01/01/2020''\<rparr>)"
  have k: "referenceDate ''01-02-2020'' = Some 1577923200000" by code_simp
  have s: "SignupDate ?c = Some 1577923200000" by code_simp
  have s': "SignupDate ?c' = Some 1577836800000" by code_simp
  have p: "Source ?c = ''phone''" "Source ?c' = ''phone''" by (simp_all add: scenario1_def)
  note th = window_selected_by_strict_comparison [where newDate = referenceDate and c = ?c, OF k s]
  note th' = window_selected_by_strict_comparison [where newDate = referenceDate and c = ?c', OF k s']
  from th have "Source ?c = ''phone'' \<longrightarrow> calculateRefundPeriod referenceDate ?c
                  = Inr (if (1577923200000::int) < 1577923200000 then Num 4 else Num 8)"
    by blast
  then have w: "calculateRefundPeriod referenceDate ?c = Inr (Num 8)" using p by simp
  from th' have "Source ?c' = ''phone'' \<longrightarrow> calculateRefundPeriod referenceDate ?c'
                  = Inr (if (1577836800000::int) < 1577923200000 then Num 4 else Num 8)"
    by blast
  then have w': "calculateRefundPeriod referenceDate ?c' = Inr (Num 4)" using p by simp
  from k s w s' w' show ?thesis by blast
qed

subsection \<open>C5: the elapsed hours\<close>

text \<open>
  C5 as stated says that the elapsed hours equal the difference of the timestamps in
  hours as a real number. The quotient of the code is a double: for a refund twenty
  minutes after the investment it is the double nearest to one third, which is not
  one third.
\<close>

theorem elapsed_hours_exact_counterexample:
  "InvestmentDate (parseCustomerInfo referenceDate (scenario1\<lparr>RefundTime := ''10:20''\<rparr>))
     = Some 1704880800000
   \<and> RefundDate (parseCustomerInfo referenceDate (scenario1\<lparr>RefundTime := ''10:20''\<rparr>))
     = Some 1704882000000
   \<and> calculateRequestTiming (parseCustomerInfo referenceDate (scenario1\<lparr>RefundTime := ''10:20''\<rparr>))
     \<noteq> Num (of_int (1704882000000 - 1704880800000) / 3600000)
   \<and> calculateRequestTiming (parseCustomerInfo referenceDate (scenario1\<lparr>RefundTime := ''10:20''\<rparr>))
     = Num (6004799503160661 / 18014398509481984)"
  by code_simp

text \<open>
  C5, amended. When both timestamps of the normalised record are valid, the elapsed
  time is the double that the code computes as the difference of the timestamps
  divided by the milliseconds of an hour. For timestamps at most \<open>2 ^ 53\<close> milliseconds
  apart it is the double nearest to the exact number of hours, within a relative error
  of \<open>1 / 2 ^ 53\<close>, so it is not truncated to whole hours. The sign is kept: when the
  refund precedes the investment the elapsed time is negative, and a record with an
  accepted \<open>Source\<close> is then evaluated as valid.
\<close>

theorem elapsed_hours_rounded_and_signed:
  assumes "InvestmentDate (parseCustomerInfo newDate data) = Some i"
    and "RefundDate (parseCustomerInfo newDate data) = Some r"
  shows "calculateRequestTiming (parseCustomerInfo newDate data)
           = Num (round_double (round_double (of_int (r - i)) / 3600000))
       \<and> (\<bar>r - i\<bar> \<le> 2 ^ 53 \<longrightarrow>
            calculateRequestTiming (parseCustomerInfo newDate data)
              = Num (round_double (of_int (r - i) / 3600000))
          \<and> \<bar>round_double (of_int (r - i) / 3600000) - of_int (r - i) / 3600000\<bar>
              \<le> \<bar>of_int (r - i) / 3600000\<bar> / 2 ^ 53)
       \<and> (r < i \<longrightarrow> round_double (round_double (of_int (r - i)) / 3600000) < 0)
       \<and> (r < i \<and> (Source data = ''phone'' \<or> Source data = ''web app'') \<longrightarrow>
            (\<exists>res. evaluate newDate data = Inr res
                 \<and> requestTiming res = calculateRequestTiming (parseCustomerInfo newDate data)
                 \<and> isRequestValid res))"
proof -
  let ?c = "parseCustomerInfo newDate data"
  let ?h = "round_double (round_double (of_int (r - i)) / 3600000)"
  let ?q = "of_int (r - i) / 3600000 :: rat"
  have t: "calculateRequestTiming ?c = Num ?h"
    using assms by (simp add: calculateRequestTiming_def)
  have exact: "calculateRequestTiming ?c = Num (round_double ?q)
             \<and> \<bar>round_double ?q - ?q\<bar> \<le> \<bar>?q\<bar> / 2 ^ 53"
    if small: "\<bar>r - i\<bar> \<le> 2 ^ 53"
  proof -
    have "round_double (of_int (r - i)) = of_int (r - i)"
      by (rule round_double_of_int [OF small])
    then have a: "calculateRequestTiming ?c = Num (round_double ?q)" using t by simp
    have b: "\<bar>round_double ?q - ?q\<bar> \<le> \<bar>?q\<bar> / 2 ^ 53"
    proof (cases "r - i = 0")
      case True
      then show ?thesis by (simp add: round_double_def)
    next
      case False
      from round_double_error [OF hours_quotient_normal [OF False]] show ?thesis .
    qed
    from a b show ?thesis ..
  qed
  have neg: "?h < 0" if "r < i"
    by (rule elapsed_negative [OF that])
  have ev: "\<exists>res. evaluate newDate data = Inr res
              \<and> requestTiming res = calculateRequestTiming ?c \<and> isRequestValid res"
    if lt: "r < i" and src: "Source data = ''phone'' \<or> Source data = ''web app''"
  proof -
    from evaluate_valid_Source [OF src] obtain res where res: "evaluate newDate data = Inr res"
      by blast
    from evaluate_Inr_fields [OF res] obtain w where
      w: "calculateRefundPeriod newDate ?c = Inr w"
      and rt: "requestTiming res = calculateRequestTiming ?c"
      and v: "isRequestValid res = js_le (calculateRequestTiming ?c) w"
      by auto
    from calculateRefundPeriod_Inr_Num [OF w] have "js_le (Num ?h) w"
      using neg [OF lt] by auto
    then show ?thesis using res rt v t by simp
  qed
  show ?thesis using t exact neg ev by blast
qed

text \<open>Scenario 1 with the refund half an hour before the investment.\<close>

theorem elapsed_hours_rounded_and_signed_witness:
  "calculateRequestTiming (parseCustomerInfo referenceDate (scenario1\<lparr>RefundTime := ''09:30''\<rparr>))
     = Num (- 1 / 2)
   \<and> requestTiming (projr (evaluate referenceDate (scenario1\<lparr>RefundTime := ''09:30''\<rparr>))) = Num (- 1 / 2)
   \<and> isRequestValid (projr (evaluate referenceDate (scenario1\<lparr>RefundTime := ''09:30''\<rparr>)))"
proof -
  let ?d = "scenario1\<lparr>RefundTime := ''09:30''\<rparr>"
  have i: "InvestmentDate (parseCustomerInfo referenceDate ?d) = Some 1704880800000" by code_simp
  have r: "RefundDate (parseCustomerInfo referenceDate ?d) = Some 1704879000000" by code_simp
  have s: "Source ?d = ''phone''" by (simp add: scenario1_def)
  have v: "round_double (of_int (1704879000000 - 1704880800000) / 3600000) = - 1 / 2"
    by code_simp
  note th = elapsed_hours_rounded_and_signed [OF i r]
  have small: "\<bar>1704879000000 - 1704880800000 :: int\<bar> \<le> 2 ^ 53" by simp
  from th small
  have "calculateRequestTiming (parseCustomerInfo referenceDate ?d)
          = Num (round_double (of_int (1704879000000 - 1704880800000) / 3600000))"
    by blast
  then have t: "calculateRequestTiming (parseCustomerInfo referenceDate ?d) = Num (- 1 / 2)"
    using v by simp
  have lt: "(1704879000000::int) < 1704880800000" by simp
  from th lt s
  have "\<exists>res. evaluate referenceDate ?d = Inr res
            \<and> requestTiming res = calculateRequestTiming (parseCustomerInfo referenceDate ?d)
            \<and> isRequestValid res"
    by blast
  then obtain res where "evaluate referenceDate ?d = Inr res"
    and "requestTiming res = calculateRequestTiming (parseCustomerInfo referenceDate ?d)"
    and "isRequestValid res"
    by blast
  then show ?thesis using t by simp
qed

subsection \<open>C7: an invalid \<open>Source\<close> and the batch\<close>

text \<open>
  C7 as stated says that the failure of one record leaves the batch running and the
  other records in the output. \<open>Home\<close> has no handler around \<open>evaluate\<close>: with an
  unsupported \<open>Source\<close> between two records that evaluate on their own, the whole
  \<open>map\<close> ends with the error and there is no output.
\<close>

theorem batch_aborts_counterexample:
  "Home referenceDate [scenario1, scenario3\<lparr>Source := ''mail''\<rparr>, scenario3]
     = Inl (Error ''Invalid Source'')
   \<and> \<not> isl (evaluate referenceDate scenario1)
   \<and> \<not> isl (evaluate referenceDate scenario3)"
  by code_simp

text \<open>
  C7, amended. A record whose \<open>Source\<close> is neither \<open>phone\<close> nor \<open>web app\<close> makes
  \<open>evaluate\<close> throw the error \<open>Invalid Source\<close> instead of choosing a window. The
  failure is not confined to the record: a list that contains such a record makes
  \<open>Home\<close> end with that error, and no record of the list reaches the output.
\<close>

theorem invalid_Source_fails_whole_batch:
  "(Source d \<noteq> ''phone'' \<and> Source d \<noteq> ''web app''
      \<longrightarrow> evaluate newDate d = Inl (Error ''Invalid Source''))
   \<and> ((\<exists>d \<in> set ds. Source d \<noteq> ''phone'' \<and> Source d \<noteq> ''web app'')
      \<longrightarrow> Home newDate ds = Inl (Error ''Invalid Source''))"
proof -
  have one: "evaluate newDate d = Inl (Error ''Invalid Source'')"
    if "Source d \<noteq> ''phone'' \<and> Source d \<noteq> ''web app''" for d
    using that by (simp add: evaluate_Inl_iff)
  have abort: "Home newDate ds = Inl (Error ''Invalid Source'')"
    if bad: "\<exists>d \<in> set ds. Source d \<noteq> ''phone'' \<and> Source d \<noteq> ''web app''"
  proof -
    have "\<exists>d \<in> set ds. isl (evaluate newDate d)"
      using bad one by (metis sum.disc(1))
    moreover have "e = Error ''Invalid Source''" if "evaluate newDate x = Inl e" for x e
      using that by (simp add: evaluate_Inl_iff)
    ultimately have "array_map (evaluate newDate) ds = Inl (Error ''Invalid Source'')"
      by (rule array_map_Inl [rotated])
    then show ?thesis by (simp add: Home_def)
  qed
  show ?thesis using one abort by blast
qed

text \<open>Scenario 1 followed by scenario 3 with the \<open>Source\<close> mail.\<close>

theorem invalid_Source_fails_whole_batch_witness:
  "evaluate referenceDate (scenario3\<lparr>Source := ''mail''\<rparr>) = Inl (Error ''Invalid Source'')
   \<and> Home referenceDate [scenario1, scenario3\<lparr>Source := ''mail''\<rparr>] = Inl (Error ''Invalid Source'')"
proof -
  let ?mail = "scenario3\<lparr>Source := ''mail''\<rparr>"
  note th = invalid_Source_fails_whole_batch [of ?mail referenceDate "[scenario1, ?mail]"]
  have m: "Source ?mail \<noteq> ''phone'' \<and> Source ?mail \<noteq> ''web app''" by simp
  have a: "evaluate referenceDate ?mail = Inl (Error ''Invalid Source'')"
    using th m by blast
  have "\<exists>d \<in> set [scenario1, ?mail]. Source d \<noteq> ''phone'' \<and> Source d \<noteq> ''web app''"
    by simp
  with th have b: "Home referenceDate [scenario1, ?mail] = Inl (Error ''Invalid Source'')"
    by blast
  from a b show ?thesis by blast
qed

end
